theory Spec2Isabelle
  imports Main "HOL-Library.Word" "HOL-Library.AList" "HOL-Library.Sublist"
begin

section \<open>hudkeep: storing and retrieving files in a blob container\<close>

text \<open>
  A shallow embedding of \<^verbatim>\<open>hudkeep/__init__.py\<close>. The module is a thin layer over
  three libraries: \<^verbatim>\<open>re\<close>, \<^verbatim>\<open>hashlib\<close> and the Azure blob SDK. The module's own
  control flow is embedded function by function, under the source's names. The libraries
  are modelled by what their documentation says of the calls the module makes; the hash
  function itself and the media-type detector are parameters.
\<close>

subsection \<open>Errors\<close>

text \<open>
  The module raises the plain \<^verbatim>\<open>Exception\<close> class twice, with two messages: the
  mismatch message of \<^verbatim>\<open>store\<close> and \<^verbatim>\<open>retrieve\<close>, which interpolates both file
  names, both sizes and both modification times, and the message of
  \<^verbatim>\<open>get_container_client\<close> about SAS keys. The message is kept as a value that
  holds what the f-string interpolates. The other errors come from the interpreter and the
  libraries: subscripting \<^verbatim>\<open>None\<close> is a \<^verbatim>\<open>TypeError\<close>, opening a missing file
  for reading is a \<^verbatim>\<open>FileNotFoundError\<close>, and asking the service for a missing blob
  is a \<^verbatim>\<open>ResourceNotFoundError\<close>.
\<close>

datatype exception_message =
    Doesnt_match string nat int string nat int
      \<comment> \<open>local name, local size, local mtime, blob name, blob size, blob mtime\<close>
  | SAS_keys_not_permitted

datatype py_error =
    PyException exception_message
  | TypeError
  | FileNotFoundError string
  | ResourceNotFoundError

subsection \<open>The regular expression of \<^verbatim>\<open>get_container_client\<close>\<close>

text \<open>
  \<^verbatim>\<open>re.match("(https://[^/]+)/([^\?]+)\??(.*)", container_url)\<close> matches at the start
  of the string, not necessarily to its end, by backtracking: every quantifier is greedy,
  so the longer repetition is tried first. Each piece of the pattern is a function from
  the rest of the input to the list of its ways to match, in the order the engine tries
  them; the pattern is their composition, and the match is the first success.
  Inside a character class \<^verbatim>\<open>\?\<close> is the question mark; \<^verbatim>\<open>.\<close> is every character
  but the line feed (no flag is given).
\<close>

definition lit :: "string \<Rightarrow> string \<Rightarrow> string list" where
  "lit s inp = (if take (length s) inp = s then [drop (length s) inp] else [])"

definition repeat_greedy :: "nat \<Rightarrow> (char \<Rightarrow> bool) \<Rightarrow> string \<Rightarrow> (string \<times> string) list" where
  \<comment> \<open>at least \<open>lo\<close> characters of the class: the longest run first, then one less, ...\<close>
  "repeat_greedy lo P inp =
     map (\<lambda>k. (take k inp, drop k inp)) (rev [lo..<Suc (length (takeWhile P inp))])"

definition plus_greedy :: "(char \<Rightarrow> bool) \<Rightarrow> string \<Rightarrow> (string \<times> string) list" where
  "plus_greedy = repeat_greedy 1"

definition star_greedy :: "(char \<Rightarrow> bool) \<Rightarrow> string \<Rightarrow> (string \<times> string) list" where
  "star_greedy = repeat_greedy 0"

definition opt_greedy :: "char \<Rightarrow> string \<Rightarrow> string list" where
  \<comment> \<open>\<^verbatim>\<open>c?\<close>: with the character first, then without it\<close>
  "opt_greedy c inp = (case inp of [] \<Rightarrow> [inp] | x # r \<Rightarrow> if x = c then [r, inp] else [inp])"

definition line_feed :: char where
  "line_feed = CHR 0x0A"

definition url_matches :: "string \<Rightarrow> (string \<times> string \<times> string) list" where
  \<comment> \<open>every match of the pattern at the start of the string, as its groups 1, 2 and 3\<close>
  "url_matches container_url =
     List.bind (lit ''https://'' container_url) (\<lambda>r0.
     List.bind (plus_greedy (\<lambda>c. c \<noteq> CHR ''/'') r0) (\<lambda>(host, r1).
     List.bind (lit ''/'' r1) (\<lambda>r2.
     List.bind (plus_greedy (\<lambda>c. c \<noteq> CHR ''?'') r2) (\<lambda>(g2, r3).
     List.bind (opt_greedy (CHR ''?'') r3) (\<lambda>r4.
     List.bind (star_greedy (\<lambda>c. c \<noteq> line_feed) r4) (\<lambda>(g3, r5).
       [(''https://'' @ host, g2, g3)]))))))"

definition re_match :: "string \<Rightarrow> (string \<times> string \<times> string) option" where
  \<comment> \<open>\<^verbatim>\<open>None\<close> when nothing matches\<close>
  "re_match container_url =
     (case url_matches container_url of [] \<Rightarrow> None | m # _ \<Rightarrow> Some m)"

subsection \<open>Container and blob clients\<close>

record container_client =
  account_url :: string
  container_name :: string
  credential :: string

record blob_client =
  blob_container :: container_client
  blob_name :: string

definition managed_identity_client_id :: string where
  "managed_identity_client_id = ''c6c4300b-9ff3-4946-8f30-e0aa59bdeaf5''"

definition get_container_client :: "string \<Rightarrow> py_error + container_client" where
  "get_container_client container_url =
     (case re_match container_url of
        None \<Rightarrow> Inl TypeError
      | Some (m1, m2, m3) \<Rightarrow>
          if m3 \<noteq> [] then Inl (PyException SAS_keys_not_permitted)
          else Inr \<lparr>account_url = m1, container_name = m2,
                    credential = managed_identity_client_id\<rparr>)"

definition get_blob_client :: "string \<Rightarrow> string \<Rightarrow> py_error + blob_client" where
  "get_blob_client blob_fn container_url =
     (case get_container_client container_url of
        Inl e \<Rightarrow> Inl e
      | Inr container \<Rightarrow> Inr \<lparr>blob_container = container, blob_name = blob_fn\<rparr>)"

subsection \<open>Local files and the content hash\<close>

type_synonym byte = "8 word"
type_synonym digest = "128 word"

text \<open>
  \<^verbatim>\<open>hashlib.md5()\<close> makes a hash object; \<^verbatim>\<open>update\<close> feeds it bytes, and feeding it
  \<open>a\<close> and then \<open>b\<close> is feeding it \<open>a + b\<close>; \<^verbatim>\<open>digest\<close> returns the 16 bytes of
  the digest of all that was fed. The object is the bytes fed so far, and the digest
  function \<open>H\<close> is a parameter.
\<close>

type_synonym md5_object = "byte list"

definition md5_new :: md5_object where
  "md5_new = []"

definition md5_update :: "md5_object \<Rightarrow> byte list \<Rightarrow> md5_object" where
  "md5_update md5 data = md5 @ data"

definition md5_digest :: "(byte list \<Rightarrow> digest) \<Rightarrow> md5_object \<Rightarrow> digest" where
  "md5_digest H md5 = H md5"

definition chunk_size :: nat where
  "chunk_size = 2 ^ 20"

text \<open>
  The loop of \<^verbatim>\<open>local_props\<close>. An open file is the bytes not yet read;
  \<^verbatim>\<open>f.read(2**20)\<close> returns at most that many of them and leaves the rest. The loop
  stops at the first empty read.
\<close>

function read_chunks :: "byte list \<Rightarrow> md5_object \<Rightarrow> md5_object" where
  "read_chunks f md5 =
     (let data = take chunk_size f
      in if data = [] then md5
         else read_chunks (drop chunk_size f) (md5_update md5 data))"
  by pat_completeness auto
termination
  by (relation "measure (\<lambda>(f, md5). length f)") (auto simp: chunk_size_def)

declare read_chunks.simps [simp del]

record local_file =
  file_bytes :: "byte list"
  st_mtime :: int

record blob =
  blob_bytes :: "byte list"
  content_type :: string
  content_md5 :: "digest option"
  last_modified :: int

datatype printed =
    Storing string string
  | Already_stored int
  | Retrieving string string
  | Local_matches

text \<open>
  The world the module acts on: the local files by name, the blobs of every container in
  the order the service lists them, a clock that stamps what is written, and what was
  printed. A container is named by the account URL and the container name its client was
  made with. The service grants the fixed credential every request.
\<close>

record world =
  local_fs :: "string \<Rightarrow> local_file option"
  blob_service :: "string \<times> string \<Rightarrow> (string \<times> blob) list"
  clock :: int
  stdout :: "printed list"

definition print :: "printed \<Rightarrow> world \<Rightarrow> world" where
  "print line w = w\<lparr>stdout := stdout w @ [line]\<rparr>"

definition local_props ::
  "(byte list \<Rightarrow> digest) \<Rightarrow> string \<Rightarrow> world \<Rightarrow> py_error + (digest \<times> nat \<times> int)" where
  "local_props H fn w =
     (case local_fs w fn of
        None \<Rightarrow> Inl (FileNotFoundError fn)
      | Some p \<Rightarrow>
          let md5 = read_chunks (file_bytes p) md5_new;
              md5_hash = md5_digest H md5
          in Inr (md5_hash, length (file_bytes p), st_mtime p))"

definition open_rb :: "string \<Rightarrow> world \<Rightarrow> py_error + byte list" where
  "open_rb fn w =
     (case local_fs w fn of None \<Rightarrow> Inl (FileNotFoundError fn) | Some p \<Rightarrow> Inr (file_bytes p))"

definition write_wb :: "string \<Rightarrow> byte list \<Rightarrow> world \<Rightarrow> world" where
  \<comment> \<open>\<^verbatim>\<open>open("wb")\<close> creates or truncates the file; all of the data is then written\<close>
  "write_wb fn data w =
     w\<lparr>local_fs := (local_fs w)(fn \<mapsto> \<lparr>file_bytes = data, st_mtime = clock w\<rparr>)\<rparr>"

subsection \<open>The blob service, as the module calls it\<close>

definition container_id :: "container_client \<Rightarrow> string \<times> string" where
  "container_id c = (account_url c, container_name c)"

definition container_blobs :: "container_client \<Rightarrow> world \<Rightarrow> (string \<times> blob) list" where
  "container_blobs c w = blob_service w (container_id c)"

definition find_blob :: "blob_client \<Rightarrow> world \<Rightarrow> blob option" where
  "find_blob b w = map_of (container_blobs (blob_container b) w) (blob_name b)"

definition blob_exists :: "blob_client \<Rightarrow> world \<Rightarrow> bool" where
  "blob_exists b w = (find_blob b w \<noteq> None)"

definition get_blob_properties :: "blob_client \<Rightarrow> world \<Rightarrow> py_error + blob" where
  "get_blob_properties b w =
     (case find_blob b w of None \<Rightarrow> Inl ResourceNotFoundError | Some props \<Rightarrow> Inr props)"

definition download_blob :: "blob_client \<Rightarrow> world \<Rightarrow> py_error + byte list" where
  "download_blob b w =
     (case find_blob b w of None \<Rightarrow> Inl ResourceNotFoundError | Some x \<Rightarrow> Inr (blob_bytes x))"

definition upload_blob :: "blob_client \<Rightarrow> byte list \<Rightarrow> string \<Rightarrow> digest \<Rightarrow> world \<Rightarrow> world" where
  \<comment> \<open>\<^verbatim>\<open>overwrite = True\<close>: the blob is replaced where it is, or added\<close>
  "upload_blob b data ctype md5 w =
     w\<lparr>blob_service := (blob_service w)
          (container_id (blob_container b) :=
             AList.update (blob_name b)
               \<lparr>blob_bytes = data, content_type = ctype, content_md5 = Some md5,
                last_modified = clock w\<rparr>
               (container_blobs (blob_container b) w))\<rparr>"

definition list_blobs :: "container_client \<Rightarrow> string \<Rightarrow> world \<Rightarrow> (string \<times> blob) list" where
  \<comment> \<open>\<^verbatim>\<open>name_starts_with\<close>: the blobs whose name starts with the prefix, in the service's order\<close>
  "list_blobs c name_starts_with w =
     filter (\<lambda>(name, x). prefix name_starts_with name) (container_blobs c w)"

definition blob_props :: "string \<Rightarrow> string \<Rightarrow> world \<Rightarrow> py_error + (digest option \<times> nat \<times> int)" where
  "blob_props blob_fn container_url w =
     (case get_blob_client blob_fn container_url of
        Inl e \<Rightarrow> Inl e
      | Inr b \<Rightarrow>
          (case get_blob_properties b w of
             Inl e \<Rightarrow> Inl e
           | Inr props \<Rightarrow>
               Inr (content_md5 props, length (blob_bytes props), last_modified props)))"

subsection \<open>Store, retrieve, list\<close>

text \<open>
  Each operation takes the world and returns what it raises or returns, with the world it
  leaves. A Python function that ends without \<^verbatim>\<open>return\<close> returns \<^verbatim>\<open>None\<close>: the
  returned value is \<open>None\<close> for that and \<open>Some True\<close> for \<^verbatim>\<open>True\<close>. \<open>H\<close> is the digest
  function and \<open>magic\<close> the media type that \<^verbatim>\<open>magic.from_file\<close> detects from a file's
  bytes.
\<close>

definition store ::
  "(byte list \<Rightarrow> digest) \<Rightarrow> (byte list \<Rightarrow> string) \<Rightarrow> string \<Rightarrow> string \<Rightarrow> string \<Rightarrow> bool \<Rightarrow> world
     \<Rightarrow> (py_error + bool option) \<times> world" where
  "store H magic local_fn blob_fn container_url forced w0 =
     (let w = print (Storing local_fn blob_fn) w0 in
      case get_blob_client blob_fn container_url of
        Inl e \<Rightarrow> (Inl e, w)
      | Inr b \<Rightarrow>
      (case local_props H local_fn w of
        Inl e \<Rightarrow> (Inl e, w)
      | Inr (l_md5, l_size, l_mtime) \<Rightarrow>
          if blob_exists b w \<and> \<not> forced then
            (case blob_props blob_fn container_url w of
               Inl e \<Rightarrow> (Inl e, w)
             | Inr (b_md5, b_size, b_mtime) \<Rightarrow>
                 if b_md5 = Some l_md5 then (Inr None, print (Already_stored b_mtime) w)
                 else (Inl (PyException
                         (Doesnt_match local_fn l_size l_mtime blob_fn b_size b_mtime)), w))
          else
            (case open_rb local_fn w of
               Inl e \<Rightarrow> (Inl e, w)
             | Inr data \<Rightarrow> (Inr (Some True), upload_blob b data (magic data) l_md5 w))))"

definition retrieve ::
  "(byte list \<Rightarrow> digest) \<Rightarrow> string \<Rightarrow> string \<Rightarrow> string \<Rightarrow> bool \<Rightarrow> world
     \<Rightarrow> (py_error + bool option) \<times> world" where
  "retrieve H local_fn blob_fn container_url forced w0 =
     (let w = print (Retrieving local_fn blob_fn) w0 in
      case get_blob_client blob_fn container_url of
        Inl e \<Rightarrow> (Inl e, w)
      | Inr b \<Rightarrow>
          if local_fs w local_fn \<noteq> None \<and> \<not> forced then
            (case local_props H local_fn w of
               Inl e \<Rightarrow> (Inl e, w)
             | Inr (l_md5, l_size, l_mtime) \<Rightarrow>
            (case blob_props blob_fn container_url w of
               Inl e \<Rightarrow> (Inl e, w)
             | Inr (b_md5, b_size, b_mtime) \<Rightarrow>
                 if b_md5 = Some l_md5 then (Inr None, print Local_matches w)
                 else (Inl (PyException
                         (Doesnt_match local_fn l_size l_mtime blob_fn b_size b_mtime)), w)))
          else
            (case download_blob b w of
               Inl e \<Rightarrow> (Inl e, w)
             | Inr blob_data \<Rightarrow> (Inr (Some True), write_wb local_fn blob_data w)))"

definition list_stored ::
  "string \<Rightarrow> string \<Rightarrow> world \<Rightarrow> (py_error + (string \<times> blob) list) \<times> world" where
  "list_stored blobs_starts_with container_url w =
     (case get_container_client container_url of
        Inl e \<Rightarrow> (Inl e, w)
      | Inr container \<Rightarrow> (Inr (list_blobs container blobs_starts_with w), w))"

subsection \<open>A small world for the examples\<close>

text \<open>
  One local file of three bytes, and a container of three blobs: one that holds the same
  bytes under the same digest, one that differs, and one outside the \<open>reports/\<close>
  prefix. The toy digest of a byte string is its length.
\<close>

definition toy_digest :: "byte list \<Rightarrow> digest" where
  "toy_digest bs = of_nat (length bs)"

definition toy_magic :: "byte list \<Rightarrow> string" where
  "toy_magic bs = ''text/csv''"

definition example_container :: container_client where
  "example_container =
     \<lparr>account_url = ''https://host'', container_name = ''container'',
      credential = managed_identity_client_id\<rparr>"

definition example_blobs :: "(string \<times> blob) list" where
  "example_blobs =
     [(''reports/2023.csv'',
         \<lparr>blob_bytes = [1, 2, 3], content_type = ''text/csv'', content_md5 = Some 3,
          last_modified = 20\<rparr>),
      (''other.txt'',
         \<lparr>blob_bytes = [], content_type = ''text/plain'', content_md5 = Some 0,
          last_modified = 21\<rparr>),
      (''reports/2024.csv'',
         \<lparr>blob_bytes = [4], content_type = ''text/csv'', content_md5 = Some 7,
          last_modified = 22\<rparr>)]"

definition example_world :: world where
  "example_world =
     \<lparr>local_fs = [''report.csv'' \<mapsto> \<lparr>file_bytes = [1, 2, 3], st_mtime = 10\<rparr>],
      blob_service =
        (\<lambda>cid. if cid = (''https://host'', ''container'') then example_blobs else []),
      clock = 50, stdout = []\<rparr>"

section \<open>Properties\<close>

subsection \<open>What the regular expression matches\<close>

text \<open>
  The first success of the backtracking search is computed here without search: the host
  is the longest run without a slash, which a slash must follow; group 2 is the longest
  run without a question mark; one question mark is skipped when it is there; group 3 runs
  to the first line feed.
\<close>


lemma repeat_greedy_Nil:
  "length (takeWhile P inp) < lo \<Longrightarrow> repeat_greedy lo P inp = []"
  by (simp add: repeat_greedy_def)

lemma repeat_greedy_Cons:
  assumes "lo \<le> length (takeWhile P inp)"
  shows "repeat_greedy lo P inp =
     (takeWhile P inp, dropWhile P inp) #
     map (\<lambda>k. (take k inp, drop k inp)) (rev [lo..<length (takeWhile P inp)])"
proof -
  have "take (length (takeWhile P inp)) inp = takeWhile P inp"
    by (rule takeWhile_eq_take [symmetric])
  moreover have "drop (length (takeWhile P inp)) inp = dropWhile P inp"
    by (rule dropWhile_eq_drop [symmetric])
  ultimately show ?thesis
    using assms by (simp add: repeat_greedy_def)
qed

lemma inside_run:
  assumes "k < length (takeWhile P inp)"
  shows "\<exists>x r. drop k inp = x # r \<and> P x"
proof -
  have k: "k < length inp"
    using assms length_takeWhile_le [of P inp] by simp
  have "takeWhile P inp ! k \<in> set (takeWhile P inp)"
    using assms by simp
  then have "P (takeWhile P inp ! k)"
    by (rule set_takeWhileD [THEN conjunct2])
  then have "P (inp ! k)"
    using assms by (simp add: takeWhile_nth)
  moreover have "drop k inp = inp ! k # drop (Suc k) inp"
    using k by (simp add: Cons_nth_drop_Suc)
  ultimately show ?thesis by blast
qed

lemma bind_all_Nil: "(\<And>x. x \<in> set xs \<Longrightarrow> f x = []) \<Longrightarrow> List.bind xs f = []"
  by (induction xs) simp_all

lemma lit_slash: "lit ''/'' inp = (case inp of [] \<Rightarrow> [] | x # r \<Rightarrow> if x = CHR ''/'' then [r] else [])"
  by (cases inp) (simp_all add: lit_def)


lemma star_level:
  "\<exists>t. List.bind (star_greedy P r4) (\<lambda>(g3, r5). [(h, g2, g3)]) = (h, g2, takeWhile P r4) # t"
  by (simp add: star_greedy_def repeat_greedy_Cons)

lemma opt_greedy_hd:
  "xs = [] \<or> hd xs = c \<Longrightarrow> \<exists>t. opt_greedy c xs = tl xs # t"
  by (cases xs) (auto simp: opt_greedy_def)

lemma opt_after_dropWhile:
  "\<exists>t. opt_greedy c (dropWhile (\<lambda>x. x \<noteq> c) r2) = tl (dropWhile (\<lambda>x. x \<noteq> c) r2) # t"
proof (rule opt_greedy_hd)
  show "dropWhile (\<lambda>x. x \<noteq> c) r2 = [] \<or> hd (dropWhile (\<lambda>x. x \<noteq> c) r2) = c"
    using hd_dropWhile [of "\<lambda>x. x \<noteq> c" r2] by blast
qed

lemma tail_level:
  "\<exists>t. List.bind (opt_greedy (CHR ''?'') (dropWhile (\<lambda>c. c \<noteq> CHR ''?'') r2))
          (\<lambda>r4. List.bind (star_greedy P r4) (\<lambda>(g3, r5). [(h, g2, g3)]))
      = (h, g2, takeWhile P (tl (dropWhile (\<lambda>c. c \<noteq> CHR ''?'') r2))) # t"
proof -
  obtain t1 where o: "opt_greedy (CHR ''?'') (dropWhile (\<lambda>c. c \<noteq> CHR ''?'') r2)
      = tl (dropWhile (\<lambda>c. c \<noteq> CHR ''?'') r2) # t1"
    using opt_after_dropWhile [of "CHR ''?''" r2] by auto
  obtain t2 where s: "List.bind (star_greedy P (tl (dropWhile (\<lambda>c. c \<noteq> CHR ''?'') r2)))
      (\<lambda>(g3, r5). [(h, g2, g3)]) = (h, g2, takeWhile P (tl (dropWhile (\<lambda>c. c \<noteq> CHR ''?'') r2))) # t2"
    using star_level [of P "tl (dropWhile (\<lambda>c. c \<noteq> CHR ''?'') r2)" h g2] by auto
  show ?thesis by (simp add: o s)
qed

lemma path_level:
  "List.bind (plus_greedy (\<lambda>c. c \<noteq> CHR ''?'') r2) (\<lambda>(g2, r3).
     List.bind (opt_greedy (CHR ''?'') r3) (\<lambda>r4.
     List.bind (star_greedy P r4) (\<lambda>(g3, r5). [(h, g2, g3)]))) = ms \<Longrightarrow>
   (case ms of [] \<Rightarrow> None | m # _ \<Rightarrow> Some m) =
     (if takeWhile (\<lambda>c. c \<noteq> CHR ''?'') r2 = [] then None
      else Some (h, takeWhile (\<lambda>c. c \<noteq> CHR ''?'') r2,
                 takeWhile P (tl (dropWhile (\<lambda>c. c \<noteq> CHR ''?'') r2))))"
proof (cases "takeWhile (\<lambda>c. c \<noteq> CHR ''?'') r2 = []")
  case True
  assume "List.bind (plus_greedy (\<lambda>c. c \<noteq> CHR ''?'') r2) (\<lambda>(g2, r3).
     List.bind (opt_greedy (CHR ''?'') r3) (\<lambda>r4.
     List.bind (star_greedy P r4) (\<lambda>(g3, r5). [(h, g2, g3)]))) = ms"
  with True show ?thesis by (simp add: plus_greedy_def repeat_greedy_Nil)
next
  case False
  assume ms: "List.bind (plus_greedy (\<lambda>c. c \<noteq> CHR ''?'') r2) (\<lambda>(g2, r3).
     List.bind (opt_greedy (CHR ''?'') r3) (\<lambda>r4.
     List.bind (star_greedy P r4) (\<lambda>(g3, r5). [(h, g2, g3)]))) = ms"
  from False have "1 \<le> length (takeWhile (\<lambda>c. c \<noteq> CHR ''?'') r2)"
    by (cases "takeWhile (\<lambda>c. c \<noteq> CHR ''?'') r2") simp_all
  then have p: "plus_greedy (\<lambda>c. c \<noteq> CHR ''?'') r2 =
      (takeWhile (\<lambda>c. c \<noteq> CHR ''?'') r2, dropWhile (\<lambda>c. c \<noteq> CHR ''?'') r2) #
      map (\<lambda>k. (take k r2, drop k r2)) (rev [1..<length (takeWhile (\<lambda>c. c \<noteq> CHR ''?'') r2)])"
    unfolding plus_greedy_def by (rule repeat_greedy_Cons)
  obtain t where "List.bind (opt_greedy (CHR ''?'') (dropWhile (\<lambda>c. c \<noteq> CHR ''?'') r2))
          (\<lambda>r4. List.bind (star_greedy P r4) (\<lambda>(g3, r5). [(h, takeWhile (\<lambda>c. c \<noteq> CHR ''?'') r2, g3)]))
      = (h, takeWhile (\<lambda>c. c \<noteq> CHR ''?'') r2, takeWhile P (tl (dropWhile (\<lambda>c. c \<noteq> CHR ''?'') r2))) # t"
    using tail_level [of r2 P h "takeWhile (\<lambda>c. c \<noteq> CHR ''?'') r2"] by auto
  with ms [symmetric] False show ?thesis by (simp add: p)
qed


lemma host_level:
  "List.bind (plus_greedy (\<lambda>c. c \<noteq> CHR ''/'') r0) (\<lambda>(host, r1). List.bind (lit ''/'' r1) (G host)) =
     (if takeWhile (\<lambda>c. c \<noteq> CHR ''/'') r0 = [] then []
      else List.bind (lit ''/'' (dropWhile (\<lambda>c. c \<noteq> CHR ''/'') r0))
             (G (takeWhile (\<lambda>c. c \<noteq> CHR ''/'') r0)))"
proof (cases "takeWhile (\<lambda>c. c \<noteq> CHR ''/'') r0 = []")
  case True
  then show ?thesis by (simp add: plus_greedy_def repeat_greedy_Nil)
next
  case False
  let ?n = "length (takeWhile (\<lambda>c. c \<noteq> CHR ''/'') r0)"
  let ?shorter = "map (\<lambda>k. (take k r0, drop k r0)) (rev [1..<?n])"
  from False have "1 \<le> ?n"
    by (cases "takeWhile (\<lambda>c. c \<noteq> CHR ''/'') r0") simp_all
  then have p: "plus_greedy (\<lambda>c. c \<noteq> CHR ''/'') r0 =
      (takeWhile (\<lambda>c. c \<noteq> CHR ''/'') r0, dropWhile (\<lambda>c. c \<noteq> CHR ''/'') r0) # ?shorter"
    unfolding plus_greedy_def by (rule repeat_greedy_Cons)
  have "List.bind ?shorter (\<lambda>(host, r1). List.bind (lit ''/'' r1) (G host)) = []"
  proof (rule bind_all_Nil)
    fix x assume "x \<in> set ?shorter"
    then obtain k where k: "k < ?n" and x: "x = (take k r0, drop k r0)" by auto
    from inside_run [OF k] obtain c r where "drop k r0 = c # r" and "c \<noteq> CHR ''/''" by blast
    with x show "(case x of (host, r1) \<Rightarrow> List.bind (lit ''/'' r1) (G host)) = []"
      by (simp add: lit_slash)
  qed
  with False show ?thesis by (simp add: p)
qed

lemma lit_after_dropWhile:
  "lit ''/'' (dropWhile (\<lambda>c. c \<noteq> CHR ''/'') r0) =
     (if dropWhile (\<lambda>c. c \<noteq> CHR ''/'') r0 = [] then [] else [tl (dropWhile (\<lambda>c. c \<noteq> CHR ''/'') r0)])"
proof (cases "dropWhile (\<lambda>c. c \<noteq> CHR ''/'') r0")
  case Nil
  then show ?thesis unfolding Nil by (simp add: lit_slash)
next
  case (Cons x r)
  then have "dropWhile (\<lambda>c. c \<noteq> CHR ''/'') r0 \<noteq> []" by simp
  from hd_dropWhile [OF this] Cons have "x = CHR ''/''" by simp
  with Cons show ?thesis unfolding Cons by (simp add: lit_slash)
qed

lemma lit_https:
  "lit ''https://'' url = (if take 8 url = ''https://'' then [drop 8 url] else [])"
  by (simp add: lit_def eval_nat_numeral)

lemma re_match_eq:
  "re_match url =
     (if take 8 url = ''https://'' then
        (let r0 = drop 8 url;
             host = takeWhile (\<lambda>c. c \<noteq> CHR ''/'') r0;
             r1 = dropWhile (\<lambda>c. c \<noteq> CHR ''/'') r0
         in if host = [] \<or> r1 = [] then None
            else (let r2 = tl r1;
                      g2 = takeWhile (\<lambda>c. c \<noteq> CHR ''?'') r2;
                      r3 = dropWhile (\<lambda>c. c \<noteq> CHR ''?'') r2
                  in if g2 = [] then None
                     else Some (''https://'' @ host, g2, takeWhile (\<lambda>c. c \<noteq> line_feed) (tl r3))))
      else None)"
proof (cases "take 8 url = ''https://''")
  case False
  then show ?thesis by (simp add: re_match_def url_matches_def lit_https)
next
  case True
  let ?r0 = "drop 8 url"
  let ?host = "takeWhile (\<lambda>c. c \<noteq> CHR ''/'') ?r0"
  let ?r1 = "dropWhile (\<lambda>c. c \<noteq> CHR ''/'') ?r0"
  have l: "lit ''https://'' url = [?r0]"
    using True by (simp add: lit_https)
  show ?thesis
  proof (cases "?host = [] \<or> ?r1 = []")
    case True
    then show ?thesis
      using \<open>take 8 url = ''https://''\<close>
      by (auto simp add: re_match_def url_matches_def l host_level lit_after_dropWhile Let_def
            simp del: dropWhile_eq_Nil_conv)
  next
    case False
    have "url_matches url =
       List.bind (plus_greedy (\<lambda>c. c \<noteq> CHR ''?'') (tl ?r1)) (\<lambda>(g2, r3).
       List.bind (opt_greedy (CHR ''?'') r3) (\<lambda>r4.
       List.bind (star_greedy (\<lambda>c. c \<noteq> line_feed) r4) (\<lambda>(g3, r5).
         [(''https://'' @ ?host, g2, g3)])))"
      using False
      by (simp add: url_matches_def l host_level lit_after_dropWhile
            del: dropWhile_eq_Nil_conv)
    from path_level [OF this [symmetric]] False \<open>take 8 url = ''https://''\<close>
    show ?thesis
      by (simp add: re_match_def Let_def del: dropWhile_eq_Nil_conv)
  qed
qed


lemma takeWhile_until:
  "c \<notin> set xs \<Longrightarrow> takeWhile (\<lambda>x. x \<noteq> c) (xs @ c # ys) = xs"
  by (induction xs) auto

lemma dropWhile_until:
  "c \<notin> set xs \<Longrightarrow> dropWhile (\<lambda>x. x \<noteq> c) (xs @ c # ys) = c # ys"
  by (induction xs) auto

lemma takeWhile_all:
  "c \<notin> set xs \<Longrightarrow> takeWhile (\<lambda>x. x \<noteq> c) xs = xs"
  by (induction xs) auto

lemma dropWhile_all:
  "c \<notin> set xs \<Longrightarrow> dropWhile (\<lambda>x. x \<noteq> c) xs = []"
  by (induction xs) auto


lemma re_match_plain:
  assumes "host \<noteq> []" "CHR ''/'' \<notin> set host" "path \<noteq> []" "CHR ''?'' \<notin> set path"
  shows "re_match (''https://'' @ host @ ''/'' @ path) = Some (''https://'' @ host, path, [])"
  using assms by (simp add: re_match_eq takeWhile_until dropWhile_until takeWhile_all dropWhile_all)

lemma re_match_shape:
  assumes "re_match url = Some m"
  shows "\<exists>host path query. host \<noteq> [] \<and> CHR ''/'' \<notin> set host \<and> path \<noteq> [] \<and> CHR ''?'' \<notin> set path \<and>
           (url = ''https://'' @ host @ ''/'' @ path \<or>
            url = ''https://'' @ host @ ''/'' @ path @ ''?'' @ query)"
proof -
  let ?r0 = "drop 8 url"
  let ?host = "takeWhile (\<lambda>c. c \<noteq> CHR ''/'') ?r0"
  let ?r1 = "dropWhile (\<lambda>c. c \<noteq> CHR ''/'') ?r0"
  let ?path = "takeWhile (\<lambda>c. c \<noteq> CHR ''?'') (tl ?r1)"
  let ?r3 = "dropWhile (\<lambda>c. c \<noteq> CHR ''?'') (tl ?r1)"
  from assms have pre: "take 8 url = ''https://''"
    by (simp add: re_match_eq split: if_splits)
  with assms have host: "?host \<noteq> []" and r1: "?r1 \<noteq> []"
    by (simp_all add: re_match_eq Let_def split: if_splits del: dropWhile_eq_Nil_conv)
  with assms pre have path: "?path \<noteq> []"
    by (simp add: re_match_eq Let_def split: if_splits del: dropWhile_eq_Nil_conv)
  have "hd ?r1 = CHR ''/''"
    using hd_dropWhile [OF r1] by simp
  with r1 have r1': "?r1 = ''/'' @ tl ?r1"
    by (cases ?r1) simp_all
  have "url = take 8 url @ ?r0" by simp
  also have "?r0 = ?host @ ?r1" by simp
  also have "?r1 = ''/'' @ ?path @ ?r3" using r1' by simp
  finally have url: "url = ''https://'' @ ?host @ ''/'' @ ?path @ ?r3"
    using pre by simp
  have h: "CHR ''/'' \<notin> set ?host"
    using set_takeWhileD [of "CHR ''/''" "\<lambda>c. c \<noteq> CHR ''/''" ?r0] by blast
  have p: "CHR ''?'' \<notin> set ?path"
    using set_takeWhileD [of "CHR ''?''" "\<lambda>c. c \<noteq> CHR ''?''" "tl ?r1"] by blast
  show ?thesis
  proof (cases "?r3 = []")
    case True
    with url have "url = ''https://'' @ ?host @ ''/'' @ ?path" by simp
    with host h path p show ?thesis by blast
  next
    case False
    have "hd ?r3 = CHR ''?''"
      using hd_dropWhile [OF False] by simp
    with False have "?r3 = ''?'' @ tl ?r3"
      by (cases ?r3) simp_all
    with url have "url = ''https://'' @ ?host @ ''/'' @ ?path @ ''?'' @ tl ?r3" by simp
    with host h path p show ?thesis by blast
  qed
qed

subsection \<open>The chunked read, the clients and the printed lines\<close>

lemma read_chunks_eq: "read_chunks f md5 = md5 @ f"
proof (induction f md5 rule: read_chunks.induct)
  case (1 f md5)
  show ?case
  proof (cases "take chunk_size f = []")
    case True
    then have "f = []" by (simp add: chunk_size_def)
    then show ?thesis by (subst read_chunks.simps) (simp add: Let_def)
  next
    case False
    with 1 [OF refl False] show ?thesis
      by (subst read_chunks.simps) (simp add: Let_def md5_update_def)
  qed
qed

lemma local_props_Some:
  "local_fs w fn = Some p \<Longrightarrow>
   local_props H fn w = Inr (H (file_bytes p), length (file_bytes p), st_mtime p)"
  by (simp add: local_props_def read_chunks_eq md5_new_def md5_digest_def)

lemma local_props_print [simp]: "local_props H fn (print line w) = local_props H fn w"
  by (simp add: local_props_def print_def)

lemma find_blob_print [simp]: "find_blob b (print line w) = find_blob b w"
  by (simp add: find_blob_def container_blobs_def print_def)

lemma blob_props_print [simp]:
  "blob_props blob_fn container_url (print line w) = blob_props blob_fn container_url w"
  by (simp add: blob_props_def get_blob_properties_def split: sum.splits)

lemma local_fs_print [simp]: "local_fs (print line w) = local_fs w"
  by (simp add: print_def)

lemma blob_service_print [simp]: "blob_service (print line w) = blob_service w"
  by (simp add: print_def)

lemma clock_print [simp]: "clock (print line w) = clock w"
  by (simp add: print_def)


lemma get_container_client_plain:
  assumes "host \<noteq> []" "CHR ''/'' \<notin> set host" "path \<noteq> []" "CHR ''?'' \<notin> set path"
  shows "get_container_client (''https://'' @ host @ ''/'' @ path) =
           Inr \<lparr>account_url = ''https://'' @ host, container_name = path,
                credential = managed_identity_client_id\<rparr>"
  unfolding get_container_client_def re_match_plain [OF assms] by simp

lemma get_blob_client_Inr:
  "get_blob_client blob_fn container_url = Inr b \<longleftrightarrow>
     (\<exists>c. get_container_client container_url = Inr c \<and>
          b = \<lparr>blob_container = c, blob_name = blob_fn\<rparr>)"
  by (auto simp: get_blob_client_def split: sum.splits)

lemma blob_props_Inr:
  "blob_props blob_fn container_url w = Inr (b_md5, b_size, b_mtime) \<longleftrightarrow>
     (\<exists>b x. get_blob_client blob_fn container_url = Inr b \<and> find_blob b w = Some x \<and>
            b_md5 = content_md5 x \<and> b_size = length (blob_bytes x) \<and> b_mtime = last_modified x)"
  by (auto simp: blob_props_def get_blob_properties_def split: sum.splits option.splits)


lemma open_rb_print [simp]: "open_rb fn (print line w) = open_rb fn w"
  by (simp add: open_rb_def)

lemma blob_exists_print [simp]: "blob_exists b (print line w) = blob_exists b w"
  by (simp add: blob_exists_def)

lemma download_blob_print [simp]: "download_blob b (print line w) = download_blob b w"
  by (simp add: download_blob_def)


subsection \<open>The example world, evaluated\<close>

lemma example_url: "get_container_client ''https://host/container'' = Inr example_container"
  using get_container_client_plain [of "''host''" "''container''"]
  by (simp add: example_container_def)

lemma example_blob_client:
  "get_blob_client name ''https://host/container'' =
     Inr \<lparr>blob_container = example_container, blob_name = name\<rparr>"
  by (simp add: get_blob_client_def example_url)

lemma example_container_blobs: "container_blobs example_container example_world = example_blobs"
  by (simp add: container_blobs_def container_id_def example_container_def example_world_def)

lemma example_find_blob:
  "find_blob \<lparr>blob_container = example_container, blob_name = name\<rparr> example_world =
     map_of example_blobs name"
  by (simp add: find_blob_def example_container_blobs)

lemma example_local:
  "local_fs example_world ''report.csv'' = Some \<lparr>file_bytes = [1, 2, 3], st_mtime = 10\<rparr>"
  by (simp add: example_world_def)



lemma example_local_props:
  "local_props toy_digest ''report.csv'' example_world = Inr (3, 3, 10)"
  using local_props_Some [OF example_local, of toy_digest] by (simp add: toy_digest_def)

lemma example_blob_props_2023:
  "blob_props ''reports/2023.csv'' ''https://host/container'' example_world =
     Inr (Some 3, 3, 20)"
  by (simp add: blob_props_def example_blob_client get_blob_properties_def example_find_blob
        example_blobs_def)

lemma example_blob_props_2024:
  "blob_props ''reports/2024.csv'' ''https://host/container'' example_world =
     Inr (Some 7, 1, 22)"
  by (simp add: blob_props_def example_blob_client get_blob_properties_def example_find_blob
        example_blobs_def)

section \<open>The claims\<close>

subsection \<open>Store\<close>

text \<open>
  C1. When \<^verbatim>\<open>store\<close> is called with \<^verbatim>\<open>forced = False\<close>, the blob exists and
  the content hash stored with it differs from the hash computed from the local file, the
  call raises the mismatch exception, whose message holds the local and the remote size
  and modification time, and the blob service is left as it was: nothing is uploaded.
\<close>

theorem store_conflict:
  assumes lp: "local_props H local_fn w = Inr (l_md5, l_size, l_mtime)"
    and bp: "blob_props blob_fn container_url w = Inr (b_md5, b_size, b_mtime)"
    and ne: "b_md5 \<noteq> Some l_md5"
  shows "store H magic local_fn blob_fn container_url False w =
           (Inl (PyException (Doesnt_match local_fn l_size l_mtime blob_fn b_size b_mtime)),
            print (Storing local_fn blob_fn) w) \<and>
         blob_service (snd (store H magic local_fn blob_fn container_url False w)) =
           blob_service w"
proof -
  from bp obtain b x where b: "get_blob_client blob_fn container_url = Inr b"
    and x: "find_blob b w = Some x"
    unfolding blob_props_Inr by blast
  from x have "blob_exists b w" by (simp add: blob_exists_def)
  with b lp bp ne show ?thesis by (simp add: store_def)
qed

theorem store_conflict_witness:
  "store toy_digest toy_magic ''report.csv'' ''reports/2024.csv'' ''https://host/container''
     False example_world =
     (Inl (PyException (Doesnt_match ''report.csv'' 3 10 ''reports/2024.csv'' 1 22)),
      print (Storing ''report.csv'' ''reports/2024.csv'') example_world) \<and>
   blob_service (snd (store toy_digest toy_magic ''report.csv'' ''reports/2024.csv''
     ''https://host/container'' False example_world)) = blob_service example_world"
proof -
  have "Some (7 :: digest) \<noteq> Some 3" by simp
  from store_conflict [OF example_local_props example_blob_props_2024 this]
  show ?thesis .
qed

text \<open>
  C2. When \<^verbatim>\<open>store\<close> is called with \<^verbatim>\<open>forced = False\<close>, the blob exists and
  the content hash stored with it equals the hash computed from the local file, the call
  uploads nothing, raises nothing and returns \<^verbatim>\<open>None\<close> rather than \<^verbatim>\<open>True\<close>; it
  prints that the file was already stored.
\<close>

theorem store_skip:
  assumes lp: "local_props H local_fn w = Inr (l_md5, l_size, l_mtime)"
    and bp: "blob_props blob_fn container_url w = Inr (b_md5, b_size, b_mtime)"
    and eq: "b_md5 = Some l_md5"
  shows "store H magic local_fn blob_fn container_url False w =
           (Inr None, print (Already_stored b_mtime) (print (Storing local_fn blob_fn) w)) \<and>
         blob_service (snd (store H magic local_fn blob_fn container_url False w)) =
           blob_service w"
proof -
  from bp obtain b x where b: "get_blob_client blob_fn container_url = Inr b"
    and x: "find_blob b w = Some x"
    unfolding blob_props_Inr by blast
  from x have "blob_exists b w" by (simp add: blob_exists_def)
  with b lp bp eq show ?thesis by (simp add: store_def)
qed

theorem store_skip_witness:
  "store toy_digest toy_magic ''report.csv'' ''reports/2023.csv'' ''https://host/container''
     False example_world =
     (Inr None,
      print (Already_stored 20)
        (print (Storing ''report.csv'' ''reports/2023.csv'') example_world)) \<and>
   blob_service (snd (store toy_digest toy_magic ''report.csv'' ''reports/2023.csv''
     ''https://host/container'' False example_world)) = blob_service example_world"
  by (rule store_skip [OF example_local_props example_blob_props_2023 refl])



subsection \<open>Retrieve\<close>



subsection \<open>The content hash\<close>

text \<open>
  C6. The content hash does not depend on the chunks: reading the file in chunks of
  \<open>2 ^ 20\<close> bytes and feeding each to the hash object gives the digest of the whole
  contents, a 128-bit value, and \<^verbatim>\<open>local_props\<close> returns it with the size and the
  modification time. Computed again over the same contents, in the same world or in
  another, the digest is the same.
\<close>

theorem content_hash_chunk_independent:
  assumes "local_fs w fn = Some p" and "local_fs w' fn = Some p'"
    and "file_bytes p' = file_bytes p"
  shows "md5_digest H (read_chunks (file_bytes p) md5_new) = H (file_bytes p) \<and>
         local_props H fn w = Inr (H (file_bytes p), length (file_bytes p), st_mtime p) \<and>
         fst (projr (local_props H fn w')) = fst (projr (local_props H fn w))"
  using assms by (simp add: local_props_Some read_chunks_eq md5_digest_def md5_new_def)

theorem content_hash_chunk_independent_witness:
  "md5_digest toy_digest (read_chunks [1, 2, 3] md5_new) = 3 \<and>
   local_props toy_digest ''report.csv'' example_world = Inr (3, 3, 10) \<and>
   fst (projr (local_props toy_digest ''report.csv''
          (print (Storing ''report.csv'' ''reports/2023.csv'') example_world))) =
   fst (projr (local_props toy_digest ''report.csv'' example_world))"
proof -
  have again: "local_fs (print (Storing ''report.csv'' ''reports/2023.csv'') example_world)
      ''report.csv'' = Some \<lparr>file_bytes = [1, 2, 3], st_mtime = 10\<rparr>"
    by (simp add: example_local)
  note t = content_hash_chunk_independent [OF example_local again refl, of toy_digest]
  have 1: "md5_digest toy_digest (read_chunks [1, 2, 3] md5_new) = 3"
    using t [THEN conjunct1] by (simp add: toy_digest_def)
  have 2: "local_props toy_digest ''report.csv'' example_world = Inr (3, 3, 10)"
    using t [THEN conjunct2, THEN conjunct1] by (simp add: toy_digest_def)
  from 1 2 t [THEN conjunct2, THEN conjunct2] show ?thesis by (intro conjI)
qed

subsection \<open>Resolving the container\<close>




text \<open>
  C7. A container URL that is not of the shape \<^verbatim>\<open>https://<host>/<path>\<close> or
  \<^verbatim>\<open>https://<host>/<path>?<query>\<close>, with a host that is not empty and has no slash
  and a path that is not empty and has no question mark, does not resolve: the pattern does
  not match, subscripting the missing match raises \<^verbatim>\<open>TypeError\<close>, and that is not the
  exception about SAS keys.
\<close>

theorem malformed_url_fails:
  assumes "\<nexists>host path query.
             host \<noteq> [] \<and> CHR ''/'' \<notin> set host \<and> path \<noteq> [] \<and> CHR ''?'' \<notin> set path \<and>
             (container_url = ''https://'' @ host @ ''/'' @ path \<or>
              container_url = ''https://'' @ host @ ''/'' @ path @ ''?'' @ query)"
  shows "get_container_client container_url = Inl TypeError \<and>
         get_container_client container_url \<noteq> Inl (PyException SAS_keys_not_permitted)"
proof -
  have "re_match container_url = None"
  proof (cases "re_match container_url")
    case None
    then show ?thesis .
  next
    case (Some m)
    from re_match_shape [OF this] assms show ?thesis by blast
  qed
  then show ?thesis by (simp add: get_container_client_def)
qed

theorem malformed_url_fails_witness:
  "get_container_client ''http://host/container'' = Inl TypeError \<and>
   get_container_client ''http://host/container'' \<noteq> Inl (PyException SAS_keys_not_permitted)"
proof (rule malformed_url_fails)
  have ne: "\<And>r. ''http://host/container'' \<noteq> ''https://'' @ r" by simp
  show "\<nexists>host path query.
          host \<noteq> [] \<and> CHR ''/'' \<notin> set host \<and> path \<noteq> [] \<and> CHR ''?'' \<notin> set path \<and>
          (''http://host/container'' = ''https://'' @ host @ ''/'' @ path \<or>
           ''http://host/container'' = ''https://'' @ host @ ''/'' @ path @ ''?'' @ query)"
    using ne by blast
qed



subsection \<open>Frame conditions and listing\<close>

text \<open>
  C8. In every branch, whatever it returns or raises, \<^verbatim>\<open>store\<close> leaves the local
  files as they were, and \<^verbatim>\<open>retrieve\<close> leaves the blob service as it was.
\<close>

theorem store_and_retrieve_frame:
  "local_fs (snd (store H magic local_fn blob_fn container_url forced w)) = local_fs w \<and>
   blob_service (snd (retrieve H' local_fn' blob_fn' container_url' forced' w)) = blob_service w"
proof
  show "local_fs (snd (store H magic local_fn blob_fn container_url forced w)) = local_fs w"
    by (simp add: store_def Let_def upload_blob_def split: sum.splits prod.splits)
  show "blob_service (snd (retrieve H' local_fn' blob_fn' container_url' forced' w)) = blob_service w"
    by (simp add: retrieve_def Let_def write_wb_def split: sum.splits prod.splits)
qed

theorem store_and_retrieve_frame_witness:
  "local_fs (snd (store toy_digest toy_magic ''report.csv'' ''reports/2025.csv''
     ''https://host/container'' False example_world)) = local_fs example_world \<and>
   blob_service (snd (retrieve toy_digest ''new.csv'' ''reports/2024.csv''
     ''https://host/container'' False example_world)) = blob_service example_world"
  by (rule store_and_retrieve_frame)

text \<open>
  C9. For a container URL that resolves, \<^verbatim>\<open>list_stored\<close> returns a list: the blobs
  of the container whose name starts with the prefix, in the order in which the service
  lists the container, and leaves the world as it was.
\<close>

theorem list_stored_prefix:
  assumes "get_container_client container_url = Inr c"
  shows "list_stored blobs_starts_with container_url w =
           (Inr (filter (\<lambda>(name, x). prefix blobs_starts_with name) (container_blobs c w)), w) \<and>
         (\<forall>e \<in> set (projr (fst (list_stored blobs_starts_with container_url w))).
            prefix blobs_starts_with (fst e)) \<and>
         subseq (projr (fst (list_stored blobs_starts_with container_url w)))
           (container_blobs c w)"
  using assms by (auto simp: list_stored_def list_blobs_def)

theorem list_stored_prefix_witness:
  "list_stored ''reports/'' ''https://host/container'' example_world =
     (Inr [(''reports/2023.csv'',
              \<lparr>blob_bytes = [1, 2, 3], content_type = ''text/csv'', content_md5 = Some 3,
               last_modified = 20\<rparr>),
           (''reports/2024.csv'',
              \<lparr>blob_bytes = [4], content_type = ''text/csv'', content_md5 = Some 7,
               last_modified = 22\<rparr>)],
      example_world)"
  using list_stored_prefix [OF example_url, of "''reports/''" example_world, THEN conjunct1]
  by (simp add: example_container_blobs example_blobs_def)

end
